theory Spec2Isabelle
  imports Main "HOL-Library.Word" "HOL-Library.Signed_Division"
begin

unbundle bit_operations_syntax

section \<open>The depth-one GTP front end of the Sensei engine\<close>

text \<open>
  A shallow embedding of \<^verbatim>\<open>sensei-engine/gtp_depth1/sensei_depth1_gtp_main.cpp\<close>.
  Strings are \<^typ>\<open>string\<close> (lists of 8-bit characters), bitboards are 64-bit words,
  the \<^verbatim>\<open>int\<close> scores of the evaluator are 32-bit words read with \<^const>\<open>sint\<close>.
  The board, move-generation and evaluator headers the file includes are not part of
  the sources at hand; what the file calls from them is a field of the record
  \<open>engine\<close> below.
\<close>

subsection \<open>Characters of the C locale\<close>

text \<open>The program never calls \<^verbatim>\<open>setlocale\<close>, so \<^verbatim>\<open>tolower\<close>, \<^verbatim>\<open>isdigit\<close> and the
  whitespace skipped by \<^verbatim>\<open>operator>>\<close> are those of the "C" locale.\<close>

definition tolower_c :: "char \<Rightarrow> char" where
  "tolower_c c = (let n = (of_char c :: nat) in if 65 \<le> n \<and> n \<le> 90 then char_of (n + 32) else c)"

definition isdigit_c :: "char \<Rightarrow> bool" where
  "isdigit_c c = (let n = (of_char c :: nat) in 48 \<le> n \<and> n \<le> 57)"

definition isspace_c :: "char \<Rightarrow> bool" where
  "isspace_c c = (let n = (of_char c :: nat) in n = 32 \<or> (9 \<le> n \<and> n \<le> 13))"

subsection \<open>\<^verbatim>\<open>std::to_string(int)\<close>\<close>

definition digit_char :: "nat \<Rightarrow> char" where
  "digit_char d = char_of (48 + d)"

function digits_of :: "nat \<Rightarrow> string" where
  "digits_of n = (if n < 10 then [digit_char n] else digits_of (n div 10) @ [digit_char (n mod 10)])"
  by pat_completeness auto
termination
  by (relation "measure (\<lambda>n. n)") auto

declare digits_of.simps [simp del]

definition to_string :: "int \<Rightarrow> string" where
  "to_string i = (if i < 0 then CHR ''-'' # digits_of (nat (- i)) else digits_of (nat i))"

subsection \<open>Replies (lines 15-26)\<close>

definition nl2 :: string where
  "nl2 = [CHR 0x0A, CHR 0x0A]"

definition Ok :: "int \<Rightarrow> string \<Rightarrow> string" where
  "Ok rid payload =
     (if rid \<ge> 0 then
        (if payload = [] then ''= '' @ to_string rid @ nl2
         else ''= '' @ to_string rid @ '' '' @ payload @ nl2)
      else if payload = [] then ''='' @ nl2
      else ''= '' @ payload @ nl2)"

definition Err :: "int \<Rightarrow> string \<Rightarrow> string" where
  "Err rid payload =
     (if rid \<ge> 0 then ''? '' @ to_string rid @ '' '' @ payload @ nl2
      else ''? '' @ payload @ nl2)"

subsection \<open>Colour and coordinate codec (lines 28-57)\<close>

text \<open>\<^verbatim>\<open>ParseColor\<close> returns false (here \<^const>\<open>None\<close>) or stores the colour in
  \<^verbatim>\<open>*is_black\<close> and returns true.\<close>

definition ParseColor :: "string \<Rightarrow> bool option" where
  "ParseColor s =
     (let t = map tolower_c s in
      if t = ''b'' \<or> t = ''black'' then Some True
      else if t = ''w'' \<or> t = ''white'' then Some False
      else None)"

text \<open>
  Modelled from the spec: the type \<^verbatim>\<open>Square\<close>, declared in the absent board headers.
  The spec gives its values as the integers 0..63; the model takes it as the unsigned
  8-bit integer, the narrowest type that holds them, and writes its values as integers
  in 0..255. Every value the codec produces lies in 0..63, where the integer type does
  not matter. \<open>cast_Square\<close> is the cast \<^verbatim>\<open>(Square)\<close> of an \<^verbatim>\<open>int\<close>, which keeps the
  low eight bits: the sentinel \<open>-1\<close> becomes 255.
\<close>

type_synonym Square = int

definition cast_Square :: "int \<Rightarrow> Square" where
  "cast_Square i = i mod 256"

text \<open>\<^verbatim>\<open>ParseCoord\<close> writes through two pointers. The model takes the values the
  caller's variables hold and returns the values they hold afterwards; \<^const>\<open>None\<close> is
  the return value false. On a pass only \<^verbatim>\<open>*is_pass\<close> is written. The comparisons
  \<^verbatim>\<open>file<'a'\<close> and so on are on \<^verbatim>\<open>char\<close>; a byte above 127 fails them whether
  \<^verbatim>\<open>char\<close> is signed (below \<^verbatim>\<open>'a'\<close>) or unsigned (above \<^verbatim>\<open>'h'\<close>), so the
  unsigned reading is used.\<close>

definition ParseCoord :: "string \<Rightarrow> Square \<Rightarrow> bool \<Rightarrow> (Square \<times> bool) option" where
  "ParseCoord s out_sq is_pass =
     (if s = ''PASS'' \<or> s = ''pass'' then Some (out_sq, True)
      else if length s \<noteq> 2 then None
      else
        let file = tolower_c (s ! 0);
            rank = s ! 1
        in if (of_char file :: nat) < 97 \<or> (of_char file :: nat) > 104 then None
           else if (of_char rank :: nat) < 49 \<or> (of_char rank :: nat) > 56 then None
           else
             let x = int (of_char file) - 97;
                 y = int (of_char rank) - 49
             in Some (y * 8 + x, False))"

text \<open>C's \<^verbatim>\<open>%\<close> and \<^verbatim>\<open>/\<close> truncate towards zero: \<open>smod\<close> and \<open>sdiv\<close>.
  The cast to \<^verbatim>\<open>char\<close> keeps the low eight bits, as \<^const>\<open>char_of\<close> does.\<close>

definition SqToCoord :: "Square \<Rightarrow> string" where
  "SqToCoord sq =
     (let x = sq smod 8;
          y = sq sdiv 8
      in [char_of (97 + x), char_of (49 + y)])"

text \<open>The 64 coordinate strings \<^verbatim>\<open>a1\<close> .. \<^verbatim>\<open>h8\<close>.\<close>

definition valid_coord :: "string \<Rightarrow> bool" where
  "valid_coord s = (length s = 2 \<and> s ! 0 \<in> set ''abcdefgh'' \<and> s ! 1 \<in> set ''12345678'')"

subsection \<open>Bitboards and the absent engine modules\<close>

type_synonym BitPattern = "64 word"

type_synonym cint = "32 word"

record Board =
  Player :: BitPattern
  Opponent :: BitPattern

text \<open>
  What the file calls from \<^verbatim>\<open>board/board.h\<close>, \<^verbatim>\<open>board/get_moves.h\<close>,
  \<^verbatim>\<open>board/get_flip.h\<close> and \<^verbatim>\<open>evaluatedepthone/pattern_evaluator.h\<close>, none of
  which is among the sources. \<open>'e\<close> is the element type of the evaluator table.
  \<open>Evaluate E evals p q\<close> stands for the three statements
  \<^verbatim>\<open>PatternEvaluator pe(evals.data()); pe.Setup(p, q); (int)pe.Evaluate()\<close>
  and \<open>InitialBoard\<close> for the default-constructed \<^verbatim>\<open>Board()\<close>.
\<close>

record 'e engine =
  GetMoves :: "BitPattern \<Rightarrow> BitPattern \<Rightarrow> BitPattern"
  GetFlip :: "Square \<Rightarrow> BitPattern \<Rightarrow> BitPattern \<Rightarrow> BitPattern"
  NewPlayer :: "BitPattern \<Rightarrow> BitPattern \<Rightarrow> BitPattern"
  NewOpponent :: "BitPattern \<Rightarrow> BitPattern \<Rightarrow> BitPattern"
  IsGameOver :: "Board \<Rightarrow> bool"
  Evaluate :: "'e list \<Rightarrow> BitPattern \<Rightarrow> BitPattern \<Rightarrow> cint"
  LoadEvals :: "string \<Rightarrow> 'e list"
  InitialBoard :: Board

text \<open>
  Modelled from the spec: \<^verbatim>\<open>Board::PlayMove\<close>, a member of the absent
  \<^verbatim>\<open>board/board.h\<close>. The spec (4.2, 4.4 step 2) has it replace the two masks by the
  position after the move, seen by the side that moves next: the masks that lines
  192-193 of the source compute with \<^verbatim>\<open>NewPlayer(flip, Opponent())\<close> and
  \<^verbatim>\<open>NewOpponent(flip, Player())\<close>.
\<close>

definition PlayMove :: "'e engine \<Rightarrow> BitPattern \<Rightarrow> Board \<Rightarrow> Board" where
  "PlayMove E flip b =
     \<lparr>Player = NewPlayer E flip (Opponent b), Opponent = NewOpponent E flip (Player b)\<rparr>"

text \<open>
  Modelled from the spec: the contract of the absent board module for a pass (4.2):
  "A pass is modeled as flipMask = 0, which still performs the perspective swap
  without changing occupancy."
\<close>

definition pass_swaps :: "'e engine \<Rightarrow> Board \<Rightarrow> bool" where
  "pass_swaps E b =
     (NewPlayer E 0 (Opponent b) = Opponent b \<and> NewOpponent E 0 (Player b) = Player b)"

text \<open>\<^verbatim>\<open>__builtin_popcountll\<close> and \<^verbatim>\<open>__builtin_ctzll\<close>. The latter is undefined at 0
  in C; the program calls it on an isolated set bit only.\<close>

definition popcountll :: "BitPattern \<Rightarrow> int" where
  "popcountll w = int (length (filter (bit w) [0..<64]))"

definition ctzll :: "BitPattern \<Rightarrow> int" where
  "ctzll w = int (length (takeWhile (\<lambda>i. \<not> bit w i) [0..<64]))"

subsection \<open>Game state (lines 59-91)\<close>

record GameState =
  board :: Board
  stm_is_black :: bool

text \<open>What can end the process other than \<^verbatim>\<open>quit\<close>: the exception \<^verbatim>\<open>std::stoi\<close>
  throws, which nothing catches.\<close>

datatype fault = StoiOutOfRange

definition Reset :: "'e engine \<Rightarrow> GameState \<Rightarrow> GameState" where
  "Reset E st = st\<lparr>board := InitialBoard E, stm_is_black := True\<rparr>"

definition ApplyPass :: "'e engine \<Rightarrow> GameState \<Rightarrow> GameState" where
  "ApplyPass E st =
     st\<lparr>board := PlayMove E 0 (board st), stm_is_black := \<not> stm_is_black st\<rparr>"

text \<open>\<^verbatim>\<open>ApplyMove\<close> returns its boolean and the state it leaves. Line 76 shifts the
  mask by \<^verbatim>\<open>(int)mv\<close> with no test of the range. For a count in 0..63 the result is the
  bit of the square. For a greater count C++ leaves the shift undefined; the model
  takes the value of the logical shift, 0, so that \<^verbatim>\<open>ApplyMove\<close> returns false and
  leaves the state as it was.\<close>

definition ApplyMove :: "'e engine \<Rightarrow> GameState \<Rightarrow> Square \<Rightarrow> bool \<times> GameState" where
  "ApplyMove E st mv =
     (let moves = GetMoves E (Player (board st)) (Opponent (board st)) in
      if (drop_bit (nat mv) moves) AND 1 = 0 then (False, st)
      else
        let flip = GetFlip E mv (Player (board st)) (Opponent (board st))
        in (True, st\<lparr>board := PlayMove E flip (board st),
                     stm_is_black := \<not> stm_is_black st\<rparr>))"

definition IsOver :: "'e engine \<Rightarrow> GameState \<Rightarrow> bool" where
  "IsOver E st = IsGameOver E (board st)"

definition CountDiscsAbs :: "GameState \<Rightarrow> int \<times> int" where
  "CountDiscsAbs st =
     (let player = Player (board st);
          opp = Opponent (board st);
          black = (if stm_is_black st then player else opp);
          white = (if stm_is_black st then opp else player)
      in (popcountll black, popcountll white))"

subsection \<open>The selection loop of \<^verbatim>\<open>genmove\<close> (lines 182-201)\<close>

text \<open>\<open>candidate_score\<close> is the body of the loop up to the comparison: the evaluator's
  \<^verbatim>\<open>int\<close> for the position after the move, negated in 32 bits. The negation wraps at
  \<^verbatim>\<open>INT_MIN\<close>, the one value where C++ leaves it undefined.\<close>

definition candidate_score :: "'e engine \<Rightarrow> 'e list \<Rightarrow> Board \<Rightarrow> Square \<Rightarrow> cint" where
  "candidate_score E evals b mv =
     (let flip = GetFlip E mv (Player b) (Opponent b);
          next_player = NewPlayer E flip (Opponent b);
          next_opp = NewOpponent E flip (Player b);
          score = Evaluate E evals next_player next_opp
      in - score)"

function select_loop ::
  "'e engine \<Rightarrow> 'e list \<Rightarrow> Board \<Rightarrow> BitPattern \<Rightarrow> int \<Rightarrow> cint \<Rightarrow> int \<times> cint" where
  "select_loop E evals b rem best_move best_score =
     (if rem = 0 then (best_move, best_score)
      else
        let sq_bb = rem AND (0 - rem);
            rem' = rem XOR sq_bb;
            mv = ctzll sq_bb;
            score = candidate_score E evals b mv
        in if best_score <s score then select_loop E evals b rem' mv score
           else select_loop E evals b rem' best_move best_score)"
  by pat_completeness auto
termination
proof (relation "measure (\<lambda>(E, evals, b, rem, best_move, best_score). unat rem)")
  show "wf (measure (\<lambda>(E :: 'e engine, evals :: 'e list, b :: Board, rem :: BitPattern,
                       best_move :: int, best_score :: cint). unat rem))"
    by simp
next
  have clear: "unat (rem XOR (rem AND (0 - rem))) < unat rem" if "rem \<noteq> 0" for rem :: BitPattern
  proof -
    have "rem XOR (rem AND (0 - rem)) = rem AND NOT (0 - rem)"
      by (rule bit_eqI) (auto simp: bit_simps)
    also have "NOT (0 - rem) = rem - 1"
      by (simp add: not_eq_complement)
    finally have eq: "rem XOR (rem AND (0 - rem)) = rem AND (rem - 1)" .
    have "rem AND (rem - 1) \<le> rem - 1"
      by (rule word_and_le1)
    moreover have "rem - 1 < rem"
      using that by (metis word_less_1 diff_0_right not_gr_zero diff_right_commute
          less_eq_dec_iff sub_wrap)
    ultimately have "rem AND (rem - 1) < rem"
      by simp
    then have "unat (rem AND (rem - 1)) < unat rem"
      by (simp add: word_less_nat_alt)
    then show ?thesis
      by (simp only: eq)
  qed
  fix E :: "'e engine" and evals :: "'e list" and b :: Board and rem :: BitPattern
    and best_move :: int and best_score :: cint and x xa xb xc
  assume "rem \<noteq> 0" "x = rem AND 0 - rem" "xa = rem XOR x"
  then show "((E, evals, b, xa, xb, xc), E, evals, b, rem, best_move, best_score)
      \<in> measure (\<lambda>(E, evals, b, rem, best_move, best_score). unat rem)"
    using clear [of rem] by simp
  then show "((E, evals, b, xa, best_move, best_score), E, evals, b, rem, best_move, best_score)
      \<in> measure (\<lambda>(E, evals, b, rem, best_move, best_score). unat rem)"
    by simp
qed

declare select_loop.simps [simp del]

subsection \<open>Reading a request (lines 113-142)\<close>

text \<open>\<^verbatim>\<open>s.find_first_not_of(chars)\<close>; \<^const>\<open>None\<close> is \<^verbatim>\<open>npos\<close>.\<close>

fun find_first_not_of :: "string \<Rightarrow> string \<Rightarrow> nat option" where
  "find_first_not_of chars [] = None"
| "find_first_not_of chars (c # cs) =
     (if c \<in> set chars then map_option Suc (find_first_not_of chars cs) else Some 0)"

definition blanks :: string where
  "blanks = [CHR '' '', CHR 0x09, CHR 0x0D, CHR 0x0A]"

text \<open>\<open>stream >> tok\<close> on a string stream whose unread content is \<open>s\<close>: whitespace is
  skipped, the token runs to the next whitespace or to the end. The result is the token
  and the content left unread. A stream that has hit its end or failed yields empty
  tokens from then on, which is what reading from the empty rest yields here.\<close>

definition read_token :: "string \<Rightarrow> string \<times> string" where
  "read_token s =
     (let s1 = dropWhile isspace_c s
      in (takeWhile (\<lambda>c. \<not> isspace_c c) s1, dropWhile (\<lambda>c. \<not> isspace_c c) s1))"

text \<open>\<^verbatim>\<open>std::stoi\<close> on a non-empty token of decimal digits, the only tokens the program
  gives it: the value, or \<^verbatim>\<open>std::out_of_range\<close> when it exceeds \<^verbatim>\<open>INT_MAX\<close>.\<close>

definition stoi :: "string \<Rightarrow> fault + int" where
  "stoi tok =
     (let n = foldl (\<lambda>a c. 10 * a + (int (of_char c) - 48)) 0 tok
      in if n > 2147483647 then Inl StoiOutOfRange else Inr n)"

text \<open>Lines 113-136: the request id and the command line that follows it.
  \<^verbatim>\<open>getline(ss, rest)\<close> reads up to a newline.\<close>

definition read_id :: "string \<Rightarrow> fault + (int \<times> string)" where
  "read_id line =
     (let cmdline = (case find_first_not_of blanks line of
                       Some p \<Rightarrow> drop p line | None \<Rightarrow> line);
          (tok, ss) = read_token cmdline;
          all_digits = (tok \<noteq> [] \<and> list_all isdigit_c tok)
      in if all_digits then
           (case stoi tok of
              Inl f \<Rightarrow> Inl f
            | Inr n \<Rightarrow>
                let rest = takeWhile (\<lambda>c. c \<noteq> CHR 0x0A) ss
                in Inr (n, case find_first_not_of blanks rest of
                             Some p \<Rightarrow> drop p rest | None \<Rightarrow> []))
         else Inr (- 1, cmdline))"

subsection \<open>The command handlers (lines 144-219)\<close>

datatype flow = Continue | Break

type_synonym outcome = "fault + (string \<times> GameState \<times> flow)"

definition play_cmd :: "'e engine \<Rightarrow> GameState \<Rightarrow> int \<Rightarrow> string \<Rightarrow> outcome" where
  "play_cmd E st rid iss =
     (let (color_s, iss1) = read_token iss;
          (coord_s, iss2) = read_token iss1
      in case ParseColor color_s of
           None \<Rightarrow> Inr (Err rid ''illegal color'', st, Continue)
         | Some is_black \<Rightarrow>
             (case ParseCoord coord_s 0 False of
                None \<Rightarrow> Inr (Err rid ''illegal move'', st, Continue)
              | Some (sq, is_pass) \<Rightarrow>
                  if is_black \<noteq> stm_is_black st
                  then Inr (Err rid ''wrong color to play'', st, Continue)
                  else if is_pass then Inr (Ok rid [], ApplyPass E st, Continue)
                  else
                    (let (ok, st') = ApplyMove E st sq
                     in if \<not> ok then Inr (Err rid ''illegal move'', st', Continue)
                        else Inr (Ok rid [], st', Continue))))"

text \<open>The boolean \<^verbatim>\<open>ApplyMove\<close> returns at line 203 is discarded: whatever it is, line
  204 replies with the coordinate of \<^verbatim>\<open>(Square)best_move\<close>.\<close>

definition genmove_cmd :: "'e engine \<Rightarrow> 'e list \<Rightarrow> GameState \<Rightarrow> int \<Rightarrow> string \<Rightarrow> outcome" where
  "genmove_cmd E evals st rid iss =
     (let (color_s, iss1) = read_token iss
      in case ParseColor color_s of
           None \<Rightarrow> Inr (Err rid ''illegal color'', st, Continue)
         | Some is_black \<Rightarrow>
             if evals = [] then Inr (Err rid ''evals not loaded'', st, Continue)
             else if is_black \<noteq> stm_is_black st
             then Inr (Err rid ''wrong color to play'', st, Continue)
             else
               let moves = GetMoves E (Player (board st)) (Opponent (board st))
               in if moves = 0 then Inr (Ok rid ''PASS'', ApplyPass E st, Continue)
                  else
                    let (best_move, best_score) =
                          select_loop E evals (board st) moves (- 1) (- 1000000000);
                        (ok, st') = ApplyMove E st (cast_Square best_move)
                    in Inr (Ok rid (SqToCoord (cast_Square best_move)), st', Continue))"

definition final_score_cmd :: "'e engine \<Rightarrow> GameState \<Rightarrow> int \<Rightarrow> outcome" where
  "final_score_cmd E st rid =
     (if \<not> IsOver E st then Inr (Err rid ''game not over'', st, Continue)
      else
        let (nb, nw) = CountDiscsAbs st;
            diff = nb - nw;
            r = (if diff > 0 then ''B+'' @ to_string diff
                 else if diff < 0 then ''W+'' @ to_string (- diff)
                 else ''0'')
        in Inr (Ok rid r, st, Continue))"

text \<open>Lines 138-219, from the verb on. A line without a verb is skipped without a reply,
  which is the empty output.\<close>

definition dispatch :: "'e engine \<Rightarrow> 'e list \<Rightarrow> GameState \<Rightarrow> int \<Rightarrow> string \<Rightarrow> outcome" where
  "dispatch E evals st rid cmdline =
     (let (cmd0, iss) = read_token cmdline
      in if cmd0 = [] then Inr ([], st, Continue)
         else
           let cmd = map tolower_c cmd0
           in if cmd = ''quit'' \<or> cmd = ''exit'' then Inr (Ok rid [], st, Break)
              else if cmd = ''clear_board'' then Inr (Ok rid [], Reset E st, Continue)
              else if cmd = ''play'' then play_cmd E st rid iss
              else if cmd = ''genmove'' then genmove_cmd E evals st rid iss
              else if cmd = ''final_score'' then final_score_cmd E st rid
              else Inr (Err rid ''unknown command'', st, Continue))"

text \<open>One turn of the request loop (lines 110-220) on one line of input.\<close>

definition process_line :: "'e engine \<Rightarrow> 'e list \<Rightarrow> GameState \<Rightarrow> string \<Rightarrow> outcome" where
  "process_line E evals st line =
     (if line = [] then Inr ([], st, Continue)
      else case read_id line of
             Inl f \<Rightarrow> Inl f
           | Inr (rid, cmdline) \<Rightarrow> dispatch E evals st rid cmdline)"

subsection \<open>\<^verbatim>\<open>main\<close> (lines 93-222)\<close>

text \<open>The scan of \<^verbatim>\<open>argv[1..]\<close> for \<^verbatim>\<open>--eval <path>\<close>.\<close>

fun eval_path_of :: "string \<Rightarrow> string list \<Rightarrow> string" where
  "eval_path_of path [] = path"
| "eval_path_of path [a] = path"
| "eval_path_of path (a # b # rest) =
     (if a = ''--eval'' then eval_path_of b rest else eval_path_of path (b # rest))"

definition load_evals :: "'e engine \<Rightarrow> string list \<Rightarrow> 'e list" where
  "load_evals E args =
     (let eval_path = eval_path_of ''sensei-engine/pattern_evaluator.dat'' args;
          evals = LoadEvals E eval_path
      in if evals = [] then LoadEvals E ''pattern_evaluator.dat'' else evals)"

datatype ending = EndOfInput | Quit | Crashed fault

text \<open>The loop over the lines of standard input. It returns what each line it handled
  wrote, in order, and how the loop ended.\<close>

fun main_loop :: "'e engine \<Rightarrow> 'e list \<Rightarrow> GameState \<Rightarrow> string list \<Rightarrow> string list \<times> ending" where
  "main_loop E evals st [] = ([], EndOfInput)"
| "main_loop E evals st (line # rest) =
     (case process_line E evals st line of
        Inl f \<Rightarrow> ([], Crashed f)
      | Inr (out, st', fl) \<Rightarrow>
          (case fl of
             Break \<Rightarrow> ([out], Quit)
           | Continue \<Rightarrow>
               (let (outs, e) = main_loop E evals st' rest in (out # outs, e))))"

definition main :: "'e engine \<Rightarrow> string list \<Rightarrow> string list \<Rightarrow> string list \<times> ending" where
  "main E args lines =
     (let evals = load_evals E args;
          st = Reset E \<lparr>board = InitialBoard E, stm_is_black = True\<rparr>
      in main_loop E evals st lines)"

subsection \<open>A small engine to run the definitions on\<close>

text \<open>Every empty square among the low four is a legal move, a move flips nothing but
  places its disc, and the evaluator looks at two squares of the second mask.\<close>

definition toy :: "nat engine" where
  "toy = \<lparr>GetMoves = (\<lambda>p q. NOT (p OR q) AND 15),
          GetFlip = (\<lambda>sq p q. push_bit (nat sq) 1),
          NewPlayer = (\<lambda>flip q. q AND NOT flip),
          NewOpponent = (\<lambda>flip p. p OR flip),
          IsGameOver = (\<lambda>b. NOT (Player b OR Opponent b) AND 15 = 0),
          Evaluate = (\<lambda>evals p q. if bit q 2 then - 3 else if bit q 3 then 1 else 0),
          LoadEvals = (\<lambda>path. if path = ''toy.dat'' then [1] else []),
          InitialBoard = \<lparr>Player = 1, Opponent = 2\<rparr>\<rparr>"

text \<open>The same engine with an evaluator that returns 1000000000 for every position.\<close>

definition toy_far :: "nat engine" where
  "toy_far = toy\<lparr>Evaluate := (\<lambda>evals p q. 1000000000)\<rparr>"

subsection \<open>Vocabulary for the properties\<close>

text \<open>The squares of a mask in ascending order, and one comparison of the selection
  loop: \<open>best\<close> is the pair of \<^verbatim>\<open>best_move\<close> and \<^verbatim>\<open>best_score\<close>.\<close>

definition squares_of :: "BitPattern \<Rightarrow> nat list" where
  "squares_of w = filter (bit w) [0..<64]"

definition take_better ::
  "'e engine \<Rightarrow> 'e list \<Rightarrow> Board \<Rightarrow> int \<times> cint \<Rightarrow> nat \<Rightarrow> int \<times> cint" where
  "take_better E evals b best k =
     (let score = candidate_score E evals b (int k)
      in if snd best <s score then (int k, score) else best)"

text \<open>A reply is an error reply when it starts with \<^verbatim>\<open>?\<close> and a success reply when it
  starts with \<^verbatim>\<open>=\<close>.\<close>

definition is_error_reply :: "string \<Rightarrow> bool" where
  "is_error_reply out = (out \<noteq> [] \<and> hd out = CHR ''?'')"

definition is_success_reply :: "string \<Rightarrow> bool" where
  "is_success_reply out = (out \<noteq> [] \<and> hd out = CHR ''='')"

text \<open>The request a line carries when it reaches the handlers: its id (\<open>-1\<close> when
  absent), its verb in lower case and the text after the verb.\<close>

definition request_of :: "string \<Rightarrow> (int \<times> string \<times> string) option" where
  "request_of line =
     (if line = [] then None
      else case read_id line of
             Inl f \<Rightarrow> None
           | Inr (rid, cmdline) \<Rightarrow>
               let (cmd0, iss) = read_token cmdline
               in if cmd0 = [] then None else Some (rid, map tolower_c cmd0, iss))"

definition arg1 :: "string \<Rightarrow> string" where
  "arg1 iss = fst (read_token iss)"


text \<open>The discs of each colour: black's are the mover's mask when black is to move.\<close>

definition black_mask :: "GameState \<Rightarrow> BitPattern" where
  "black_mask st = (if stm_is_black st then Player (board st) else Opponent (board st))"

definition white_mask :: "GameState \<Rightarrow> BitPattern" where
  "white_mask st = (if stm_is_black st then Opponent (board st) else Player (board st))"

text \<open>Disc counts by colour, as \<^verbatim>\<open>final_score\<close> sees them.\<close>

definition black_discs :: "GameState \<Rightarrow> int" where
  "black_discs st = fst (CountDiscsAbs st)"

definition white_discs :: "GameState \<Rightarrow> int" where
  "white_discs st = snd (CountDiscsAbs st)"

section \<open>Properties\<close>

subsection \<open>Replies\<close>

lemma Err_is_error: "is_error_reply (Err rid m)"
  by (simp add: is_error_reply_def Err_def)

lemma Ok_is_success: "is_success_reply (Ok rid p)"
  by (simp add: is_success_reply_def Ok_def)

lemma Ok_not_error: "\<not> is_error_reply (Ok rid p)"
  by (simp add: is_error_reply_def Ok_def)

lemma Err_not_success: "\<not> is_success_reply (Err rid m)"
  by (simp add: is_success_reply_def Err_def)

lemma Ok_neq_Err: "Ok rid p \<noteq> Err rid' m"
  using Ok_not_error [of rid p] Err_is_error [of rid' m] by auto

lemma empty_not_reply: "\<not> is_error_reply []" "\<not> is_success_reply []"
  by (simp_all add: is_error_reply_def is_success_reply_def)

subsection \<open>The coordinate codec\<close>

text \<open>
  C2. For each of the 64 lower-case coordinate strings \<^verbatim>\<open>a1\<close> .. \<^verbatim>\<open>h8\<close>,
  \<^verbatim>\<open>ParseCoord\<close> succeeds with a square and no pass, whatever the caller's variables
  held, and \<^verbatim>\<open>SqToCoord\<close> of that square is the string again.
\<close>

theorem coordinate_round_trip:
  "valid_coord s \<Longrightarrow>
     \<exists>sq. ParseCoord s out_sq is_pass = Some (sq, False) \<and> SqToCoord sq = s"
proof -
  assume "valid_coord s"
  then obtain f r where s: "s = [f, r]"
    and f: "f \<in> set ''abcdefgh''" and r: "r \<in> set ''12345678''"
    unfolding valid_coord_def by (cases s; cases "tl s"; auto)
  show ?thesis
    using f r unfolding s
    by (auto simp: ParseCoord_def SqToCoord_def tolower_c_def signed_divide_int_def
        signed_modulo_int_def char_of_eq_iff)
qed

theorem coordinate_round_trip_witness:
  "valid_coord ''e4'' \<and>
   (\<exists>sq. ParseCoord ''e4'' 0 False = Some (sq, False) \<and> SqToCoord sq = ''e4'')"
  using coordinate_round_trip [of "''e4''" 0 False] by (simp add: valid_coord_def)

lemma lower_file_iff:
  "(97 \<le> (of_char (tolower_c c) :: nat) \<and> (of_char (tolower_c c) :: nat) \<le> 104) =
   (c \<in> set ''abcdefghABCDEFGH'')"
proof
  assume a: "97 \<le> (of_char (tolower_c c) :: nat) \<and> (of_char (tolower_c c) :: nat) \<le> 104"
  define n where "n = (of_char c :: nat)"
  have c: "c = char_of n" by (simp add: n_def)
  have low: "(of_char (tolower_c c) :: nat) = (if 65 \<le> n \<and> n \<le> 90 then n + 32 else n)"
    by (simp add: tolower_c_def Let_def n_def)
  from a have "(65 \<le> n \<and> n \<le> 72) \<or> (97 \<le> n \<and> n \<le> 104)"
    unfolding low by (simp split: if_splits)
  then have "n \<in> {65, 66, 67, 68, 69, 70, 71, 72, 97, 98, 99, 100, 101, 102, 103, 104}"
    by simp arith
  then show "c \<in> set ''abcdefghABCDEFGH''"
    unfolding c by (auto simp: char_of_eq_iff)
next
  assume "c \<in> set ''abcdefghABCDEFGH''"
  then show "97 \<le> (of_char (tolower_c c) :: nat) \<and> (of_char (tolower_c c) :: nat) \<le> 104"
    by (auto simp: tolower_c_def)
qed

lemma rank_iff:
  "(49 \<le> (of_char c :: nat) \<and> (of_char c :: nat) \<le> 56) = (c \<in> set ''12345678'')"
proof
  assume a: "49 \<le> (of_char c :: nat) \<and> (of_char c :: nat) \<le> 56"
  define n where "n = (of_char c :: nat)"
  have c: "c = char_of n" by (simp add: n_def)
  from a have "n \<in> {49, 50, 51, 52, 53, 54, 55, 56}"
    unfolding n_def [symmetric] by simp arith
  then show "c \<in> set ''12345678''"
    unfolding c by (auto simp: char_of_eq_iff)
next
  assume "c \<in> set ''12345678''"
  then show "49 \<le> (of_char c :: nat) \<and> (of_char c :: nat) \<le> 56"
    by auto
qed

text \<open>
  What \<^verbatim>\<open>ParseCoord\<close> accepts. It reports a pass for the two spellings \<^verbatim>\<open>PASS\<close> and
  \<^verbatim>\<open>pass\<close> only, leaving the square as it was. Any other token is accepted exactly
  when it has two characters, the first in \<^verbatim>\<open>a\<close>..\<^verbatim>\<open>h\<close> or \<^verbatim>\<open>A\<close>..\<^verbatim>\<open>H\<close> and the
  second in \<^verbatim>\<open>1\<close>..\<^verbatim>\<open>8\<close>, and then yields the square \<open>rank * 8 + file\<close>; every other
  token is rejected.
\<close>

lemma ParseCoord_accepts:
  "ParseCoord s out_sq is_pass =
     (if s = ''PASS'' \<or> s = ''pass'' then Some (out_sq, True)
      else if length s = 2 \<and> s ! 0 \<in> set ''abcdefghABCDEFGH'' \<and> s ! 1 \<in> set ''12345678''
      then Some ((int (of_char (s ! 1)) - 49) * 8 + (int (of_char (tolower_c (s ! 0))) - 97), False)
      else None)"
  using lower_file_iff [of "s ! 0"] rank_iff [of "s ! 1"]
  by (auto simp: ParseCoord_def Let_def not_less not_le simp del: set_simps list.set)

text \<open>
  C7 fails on the code. The file letter, the colour token and the verb are compared
  without regard to case, but line 37 compares the whole token with the two literals
  \<^verbatim>\<open>PASS\<close> and \<^verbatim>\<open>pass\<close>. The spellings \<^verbatim>\<open>Pass\<close> and \<^verbatim>\<open>pAsS\<close> are the token
  \<^verbatim>\<open>pass\<close> up to case; \<^verbatim>\<open>ParseCoord\<close> rejects them, and a \<^verbatim>\<open>play\<close> that passes
  with one of them is answered with \<^verbatim>\<open>illegal move\<close>, while the same request spelt
  \<^verbatim>\<open>pass\<close> is accepted.
\<close>

theorem mixed_case_pass_rejected:
  "map tolower_c ''Pass'' = ''pass'' \<and> ParseCoord ''Pass'' 0 False = None \<and>
   map tolower_c ''pAsS'' = ''pass'' \<and> ParseCoord ''pAsS'' 0 False = None"
  by (simp add: ParseCoord_def tolower_c_def char_of_eq_iff)

lemma mixed_case_pass_example:
  "process_line toy [1] \<lparr>board = \<lparr>Player = 1, Opponent = 2\<rparr>, stm_is_black = True\<rparr>
     ''play b Pass'' =
   Inr (Err (- 1) ''illegal move'',
        \<lparr>board = \<lparr>Player = 1, Opponent = 2\<rparr>, stm_is_black = True\<rparr>, Continue) \<and>
   process_line toy [1] \<lparr>board = \<lparr>Player = 1, Opponent = 2\<rparr>, stm_is_black = True\<rparr>
     ''play b pass'' =
   Inr (Ok (- 1) [], \<lparr>board = \<lparr>Player = 2, Opponent = 1\<rparr>, stm_is_black = False\<rparr>, Continue)"
  by code_simp

subsection \<open>Requests\<close>

lemma process_line_request:
  assumes "request_of line = Some (rid, cmd, iss)"
  shows "process_line E evals st line =
     (if cmd = ''quit'' \<or> cmd = ''exit'' then Inr (Ok rid [], st, Break)
      else if cmd = ''clear_board'' then Inr (Ok rid [], Reset E st, Continue)
      else if cmd = ''play'' then play_cmd E st rid iss
      else if cmd = ''genmove'' then genmove_cmd E evals st rid iss
      else if cmd = ''final_score'' then final_score_cmd E st rid
      else Inr (Err rid ''unknown command'', st, Continue))"
  using assms
  by (auto simp: request_of_def process_line_def dispatch_def Let_def
      split: if_splits sum.splits prod.splits)

lemma process_line_no_request:
  assumes "request_of line = None"
  shows "process_line E evals st line = Inr ([], st, Continue) \<or>
         process_line E evals st line = Inl StoiOutOfRange"
proof (cases "line = []")
  case True
  then show ?thesis by (simp add: process_line_def)
next
  case False
  show ?thesis
  proof (cases "read_id line")
    case (Inl f)
    moreover have "f = StoiOutOfRange"
      using Inl by (auto simp: read_id_def stoi_def Let_def split: prod.splits if_splits sum.splits)
    ultimately show ?thesis using False by (simp add: process_line_def)
  next
    case (Inr r)
    then show ?thesis
      using assms False
      by (auto simp: request_of_def process_line_def dispatch_def Let_def
          split: if_splits prod.splits)
  qed
qed

subsection \<open>\<^verbatim>\<open>play\<close> out of turn\<close>



text \<open>On that board \<^verbatim>\<open>c1\<close> is a legal move and \<^verbatim>\<open>a1\<close> is not; out of turn the reply is
  the same.\<close>

lemma out_of_turn_example:
  "GetMoves toy 1 2 = 12 \<and>
   process_line toy [1] \<lparr>board = \<lparr>Player = 1, Opponent = 2\<rparr>, stm_is_black = True\<rparr>
     ''play w a1'' =
   Inr (Err (- 1) ''wrong color to play'',
        \<lparr>board = \<lparr>Player = 1, Opponent = 2\<rparr>, stm_is_black = True\<rparr>, Continue) \<and>
   process_line toy [1] \<lparr>board = \<lparr>Player = 1, Opponent = 2\<rparr>, stm_is_black = True\<rparr>
     ''play w c1'' =
   Inr (Err (- 1) ''wrong color to play'',
        \<lparr>board = \<lparr>Player = 1, Opponent = 2\<rparr>, stm_is_black = True\<rparr>, Continue)"
  by code_simp

subsection \<open>\<^verbatim>\<open>final_score\<close>\<close>

lemma popcountll_card: "popcountll w = int (card {n. bit w n})"
proof -
  have "set (filter (bit w) [0..<64]) = {n. bit w n}"
    by (auto dest: bit_imp_le_length)
  moreover have "distinct (filter (bit w) [0..<64])"
    by simp
  ultimately show ?thesis
    unfolding popcountll_def by (metis distinct_card)
qed

text \<open>
  C5. A \<^verbatim>\<open>final_score\<close> request is answered with the error \<^verbatim>\<open>game not over\<close> exactly
  when the board module reports the game as not over; otherwise it is answered with
  \<^verbatim>\<open>B+diff\<close>, \<^verbatim>\<open>W+(-diff)\<close> or \<^verbatim>\<open>0\<close> for \<open>diff\<close> the number of black discs minus
  the number of white discs. Black's discs are the mover's mask when black is to move
  and the other mask otherwise. The state is unchanged in both cases.
\<close>

theorem final_score_reply:
  assumes "request_of line = Some (rid, ''final_score'', iss)"
  shows "process_line E evals st line =
           (if IsGameOver E (board st)
            then Inr (Ok rid (let diff = black_discs st - white_discs st
                              in if diff > 0 then ''B+'' @ to_string diff
                                 else if diff < 0 then ''W+'' @ to_string (- diff)
                                 else ''0''), st, Continue)
            else Inr (Err rid ''game not over'', st, Continue)) \<and>
         ((process_line E evals st line = Inr (Err rid ''game not over'', st, Continue)) =
            (\<not> IsGameOver E (board st))) \<and>
         black_discs st =
           popcountll (if stm_is_black st then Player (board st) else Opponent (board st)) \<and>
         white_discs st =
           popcountll (if stm_is_black st then Opponent (board st) else Player (board st))"
  by (simp add: process_line_request [OF assms] final_score_cmd_def IsOver_def
      black_discs_def white_discs_def CountDiscsAbs_def Let_def Ok_neq_Err
      split: prod.splits)

theorem final_score_reply_witness:
  "request_of ''final_score'' = Some (- 1, ''final_score'', []) \<and>
   process_line toy [] \<lparr>board = \<lparr>Player = 8, Opponent = 7\<rparr>, stm_is_black = True\<rparr>
     ''final_score'' =
   Inr (Ok (- 1) ''W+2'', \<lparr>board = \<lparr>Player = 8, Opponent = 7\<rparr>, stm_is_black = True\<rparr>,
        Continue)"
proof -
  have h: "request_of ''final_score'' = Some (- 1, ''final_score'', [])"
    by code_simp
  have p: "popcountll 8 = 1" "popcountll 7 = 3"
    by code_simp+
  have d: "to_string 2 = ''2''"
    by code_simp
  have over: "IsGameOver toy \<lparr>Player = 8, Opponent = 7\<rparr>"
    by (simp add: toy_def)
  show ?thesis
    using final_score_reply [OF h, of toy "[]"
        "\<lparr>board = \<lparr>Player = 8, Opponent = 7\<rparr>, stm_is_black = True\<rparr>"] h over
    by (simp add: p d)
qed

subsection \<open>A request id beyond \<^verbatim>\<open>INT_MAX\<close>\<close>

text \<open>
  C9 fails on the code. A line that starts with a token of digits denoting a number
  above 2147483647 makes \<^verbatim>\<open>std::stoi\<close> throw \<^verbatim>\<open>std::out_of_range\<close> at line 128.
  Nothing catches it: the process ends without a reply, whatever follows the token.
\<close>

theorem long_id_ends_process:
  "process_line E evals st ''2147483648 clear_board'' = Inl StoiOutOfRange \<and>
   main toy [] [''2147483648 clear_board'', ''clear_board''] = ([], Crashed StoiOutOfRange)"
proof -
  have "read_id ''2147483648 clear_board'' = Inl StoiOutOfRange"
    by (simp add: read_id_def read_token_def blanks_def isspace_c_def isdigit_c_def stoi_def)
  then have "process_line E evals st ''2147483648 clear_board'' = Inl StoiOutOfRange"
    by (simp add: process_line_def)
  moreover have "main toy [] [''2147483648 clear_board'', ''clear_board''] =
      ([], Crashed StoiOutOfRange)"
    by code_simp
  ultimately show ?thesis
    by simp
qed

subsection \<open>The selection loop scans the squares of the mask in ascending order\<close>

lemma odd_and_minus: "odd v \<Longrightarrow> v AND (- v) = 1" for v :: "'a::len word"
proof (rule bit_eqI)
  fix n
  assume o: "odd v" and "possible_bit TYPE('a word) n"
  have b0: "bit v 0" using o by (simp add: bit_0)
  have "bit v n = (bit (v - 1) n \<or> n = 0)"
    using o by (rule odd_bit_iff_bit_pred)
  then show "bit (v AND - v) n = bit (1 :: 'a word) n"
    using b0 o by (auto simp: bit_simps bit_minus_iff bit_1_iff bit_0)
qed

lemma lowbit:
  fixes rem :: "'a::len word"
  assumes "rem \<noteq> 0"
  obtains k where "k < LENGTH('a)" "bit rem k" "\<forall>j<k. \<not> bit rem j" "rem AND (0 - rem) = push_bit k 1"
proof -
  from assms obtain n where n: "bit rem n"
    by (auto simp: bit_eq_iff)
  define k where "k = (LEAST n. bit rem n)"
  have bk: "bit rem k" unfolding k_def using n by (rule LeastI)
  have lt: "\<forall>j<k. \<not> bit rem j" unfolding k_def using not_less_Least by blast
  have klen: "k < LENGTH('a)" using bk by (rule bit_imp_le_length)
  define v where "v = drop_bit k rem"
  have tb: "take_bit k rem = 0"
    by (rule bit_eqI) (use lt in \<open>auto simp: bit_simps\<close>)
  have rem: "rem = push_bit k v"
    using bits_ident [of k rem] tb by (simp add: v_def)
  have ov: "odd v" using bk by (simp add: v_def bit_iff_odd_drop_bit)
  have "rem AND (0 - rem) = push_bit k (v AND (- v))"
    by (simp add: rem push_bit_and push_bit_minus)
  then have "rem AND (0 - rem) = push_bit k 1"
    using odd_and_minus [OF ov] by simp
  with klen bk lt show ?thesis by (rule that)
qed

lemma takeWhile_upt:
  assumes "k < n" "\<not> P k" "\<forall>j<k. P j"
  shows "takeWhile P [0..<n] = [0..<k]"
proof -
  have "[0..<n] = [0..<k] @ k # [Suc k..<n]"
    using assms(1) by (metis less_imp_le_nat upt_add_eq_append upt_conv_Cons zero_le le_add_diff_inverse)
  moreover have "takeWhile P (xs @ y # ys) = xs" if "\<forall>x\<in>set xs. P x" "\<not> P y" for xs y ys
    using that by (induction xs) auto
  ultimately show ?thesis using assms by (metis atLeast_upt lessThan_iff lessThan_atLeast0)
qed

lemma ctzll_bit: "k < 64 \<Longrightarrow> ctzll (push_bit k 1) = int k"
  unfolding ctzll_def
  by (subst takeWhile_upt [where k = k]) (auto simp: bit_simps)


lemma squares_of_0: "squares_of 0 = []"
  by (simp add: squares_of_def)

lemma squares_of_step:
  fixes rem :: BitPattern
  assumes "k < 64" "bit rem k" "\<forall>j<k. \<not> bit rem j"
  shows "squares_of rem = k # squares_of (rem XOR push_bit k 1)"
proof -
  let ?r = "rem XOR push_bit k 1"
  have split: "[0..<64] = [0..<k] @ k # [Suc k..<64]"
    using assms(1) by (metis less_imp_le_nat upt_add_eq_append upt_conv_Cons zero_le le_add_diff_inverse)
  have bits: "bit ?r n = (bit rem n \<and> n \<noteq> k)" for n
    using assms(2) by (auto simp: bit_simps dest: bit_imp_le_length)
  have low: "filter (bit rem) [0..<k] = []" "filter (bit ?r) [0..<k] = []"
    unfolding filter_empty_conv bits using assms(3) by simp_all
  have bits2: "bit (rem XOR 2 ^ k) n = (bit rem n \<and> n \<noteq> k)" for n
    using bits [of n] by simp
  have high: "filter (bit ?r) [Suc k..<64] = filter (bit rem) [Suc k..<64]"
    by (rule filter_cong) (auto simp: bits2)
  have "squares_of rem = filter (bit rem) ([0..<k] @ k # [Suc k..<64])"
    unfolding squares_of_def by (simp only: split [symmetric])
  moreover have "squares_of ?r = filter (bit ?r) ([0..<k] @ k # [Suc k..<64])"
    unfolding squares_of_def by (simp only: split [symmetric])
  ultimately show ?thesis
    using low high assms(2) by (simp add: bits2)
qed

lemma select_loop_fold:
  "select_loop E evals b rem best_move best_score =
     foldl (take_better E evals b) (best_move, best_score) (squares_of rem)"
proof (induction E evals b rem best_move best_score rule: select_loop.induct)
  case (1 E evals b rem best_move best_score)
  show ?case
  proof (cases "rem = 0")
    case True
    then show ?thesis by (simp add: squares_of_0 select_loop.simps)
  next
    case False
    then obtain k where k: "k < 64" "bit rem k" "\<forall>j<k. \<not> bit rem j"
      and low: "rem AND (0 - rem) = push_bit k 1"
      by (rule lowbit [where rem = rem]) auto
    have ctz: "ctzll (rem AND (0 - rem)) = int k"
      using k(1) by (simp only: low ctzll_bit)
    have sq: "squares_of rem = k # squares_of (rem XOR (rem AND (0 - rem)))"
      using squares_of_step [OF k] by (simp only: low)
    show ?thesis
    proof (cases "best_score <s candidate_score E evals b (int k)")
      case True
      have T': "best_score <s candidate_score E evals b (ctzll (rem AND (0 - rem)))"
        using True ctz by simp
      have "select_loop E evals b rem best_move best_score =
            select_loop E evals b (rem XOR (rem AND (0 - rem))) (int k) (candidate_score E evals b (int k))"
        using False True by (subst select_loop.simps) (simp only: Let_def ctz if_False if_True)
      also have "\<dots> = foldl (take_better E evals b) (int k, candidate_score E evals b (int k))
                         (squares_of (rem XOR (rem AND (0 - rem))))"
        using "1.IH"(1) [OF False refl refl refl refl T'] by (simp only: ctz)
      finally have "select_loop E evals b rem best_move best_score =
          foldl (take_better E evals b) (take_better E evals b (best_move, best_score) k)
            (squares_of (rem XOR (rem AND (0 - rem))))"
        using True by (simp only: take_better_def Let_def snd_conv if_True)
      then show ?thesis
        by (simp only: sq foldl_Cons)
    next
      case nb: False
      have nb': "\<not> best_score <s candidate_score E evals b (ctzll (rem AND (0 - rem)))"
        using nb ctz by simp
      have "select_loop E evals b rem best_move best_score =
            select_loop E evals b (rem XOR (rem AND (0 - rem))) best_move best_score"
        using False nb by (subst select_loop.simps) (simp only: Let_def ctz if_False)
      also have "\<dots> = foldl (take_better E evals b) (best_move, best_score)
                         (squares_of (rem XOR (rem AND (0 - rem))))"
        using "1.IH"(2) [OF False refl refl refl refl nb'] by (simp only: ctz)
      finally have "select_loop E evals b rem best_move best_score =
          foldl (take_better E evals b) (take_better E evals b (best_move, best_score) k)
            (squares_of (rem XOR (rem AND (0 - rem))))"
        using nb by (simp only: take_better_def Let_def snd_conv if_False)
      then show ?thesis
        by (simp only: sq foldl_Cons)
    qed
  qed
qed


lemma sorted_squares_of: "sorted_wrt (<) (squares_of w)"
  unfolding squares_of_def by (rule sorted_wrt_filter) (rule sorted_wrt_upt)

lemma set_squares_of: "set (squares_of w) = {k. bit w k}"
  unfolding squares_of_def by (auto dest: bit_imp_le_length)

lemma scan_result:
  assumes "sorted_wrt (<) xs"
  shows "(foldl (take_better E evals b) (bm0, bs0) xs = (bm0, bs0) \<and>
          (\<forall>x\<in>set xs. sint (candidate_score E evals b (int x)) \<le> sint bs0)) \<or>
         (\<exists>k\<in>set xs.
            foldl (take_better E evals b) (bm0, bs0) xs = (int k, candidate_score E evals b (int k)) \<and>
            sint bs0 < sint (candidate_score E evals b (int k)) \<and>
            (\<forall>x\<in>set xs. sint (candidate_score E evals b (int x))
                            \<le> sint (candidate_score E evals b (int k))) \<and>
            (\<forall>x\<in>set xs. sint (candidate_score E evals b (int x))
                            = sint (candidate_score E evals b (int k)) \<longrightarrow> k \<le> x))"
  using assms
proof (induction xs rule: rev_induct)
  case Nil
  then show ?case by simp
next
  case (snoc x xs)
  let ?f = "\<lambda>k. sint (candidate_score E evals b (int k))"
  from snoc.prems have sorted: "sorted_wrt (<) xs" and above: "\<forall>y\<in>set xs. y < x"
    by (auto simp: sorted_wrt_append)
  note IH = snoc.IH [OF sorted]
  have step: "foldl (take_better E evals b) (bm0, bs0) (xs @ [x]) =
              take_better E evals b (foldl (take_better E evals b) (bm0, bs0) xs) x"
    by simp
  from IH show ?case
  proof (elim disjE conjE bexE)
    assume same: "foldl (take_better E evals b) (bm0, bs0) xs = (bm0, bs0)"
      and le: "\<forall>x\<in>set xs. ?f x \<le> sint bs0"
    show ?thesis
    proof (cases "sint bs0 < ?f x")
      case True
      then have "foldl (take_better E evals b) (bm0, bs0) (xs @ [x]) =
                 (int x, candidate_score E evals b (int x))"
        by (simp add: same take_better_def word_sless_alt)
      with True le above show ?thesis
        by (intro disjI2 bexI [where x = x]) (auto simp: le_less)
    next
      case False
      then have "foldl (take_better E evals b) (bm0, bs0) (xs @ [x]) = (bm0, bs0)"
        by (simp add: same take_better_def word_sless_alt)
      with False le show ?thesis
        by (intro disjI1) auto
    qed
  next
    fix k
    assume k: "k \<in> set xs"
      and at: "foldl (take_better E evals b) (bm0, bs0) xs =
               (int k, candidate_score E evals b (int k))"
      and gt: "sint bs0 < ?f k"
      and le: "\<forall>x\<in>set xs. ?f x \<le> ?f k"
      and first: "\<forall>x\<in>set xs. ?f x = ?f k \<longrightarrow> k \<le> x"
    show ?thesis
    proof (cases "?f k < ?f x")
      case True
      then have "foldl (take_better E evals b) (bm0, bs0) (xs @ [x]) =
                 (int x, candidate_score E evals b (int x))"
        by (simp add: at take_better_def word_sless_alt)
      moreover have "\<forall>y\<in>set (xs @ [x]). ?f y \<le> ?f x"
        using True le by fastforce
      moreover have "\<forall>y\<in>set (xs @ [x]). ?f y = ?f x \<longrightarrow> x \<le> y"
        using True le by fastforce
      moreover have "sint bs0 < ?f x"
        using True gt by simp
      ultimately show ?thesis
        by (intro disjI2 bexI [where x = x]) auto
    next
      case False
      then have "foldl (take_better E evals b) (bm0, bs0) (xs @ [x]) =
                 (int k, candidate_score E evals b (int k))"
        by (simp add: at take_better_def word_sless_alt)
      moreover have "\<forall>y\<in>set (xs @ [x]). ?f y \<le> ?f k"
        using False le by auto
      moreover have "\<forall>y\<in>set (xs @ [x]). ?f y = ?f k \<longrightarrow> k \<le> y"
        using first above k by (auto simp: le_less)
      ultimately show ?thesis
        using gt k by (intro disjI2 bexI [where x = k]) auto
    qed
  qed
qed

subsection \<open>What the loop returns\<close>

lemma sint_neg: "sint e \<noteq> - 2147483648 \<Longrightarrow> sint (- e :: cint) = - sint e"
proof -
  assume a: "sint e \<noteq> - 2147483648"
  have "- (2 ^ (LENGTH(32) - 1)) \<le> sint e" by (rule sint_ge)
  moreover have "sint e < 2 ^ (LENGTH(32) - 1)" by (rule sint_lt)
  ultimately have r: "- (2 ^ 31) \<le> - sint e" "- sint e < 2 ^ 31"
    using a by simp_all
  have "sint (- e) = signed_take_bit 31 (- sint e)"
    by (simp add: sint_word_ariths)
  also have "\<dots> = - sint e"
    using r by (rule signed_take_bit_int_eq_self)
  finally show ?thesis .
qed

lemma select_loop_best:
  assumes "\<exists>k. bit moves k \<and> - 1000000000 < sint (candidate_score E evals b (int k))"
  shows "\<exists>k. bit moves k \<and>
           select_loop E evals b moves (- 1) (- 1000000000) =
             (int k, candidate_score E evals b (int k)) \<and>
           (\<forall>x. bit moves x \<longrightarrow>
              sint (candidate_score E evals b (int x)) \<le> sint (candidate_score E evals b (int k))) \<and>
           (\<forall>x. bit moves x \<longrightarrow>
              sint (candidate_score E evals b (int x)) = sint (candidate_score E evals b (int k)) \<longrightarrow>
              k \<le> x)"
proof -
  have s: "sint (- 1000000000 :: cint) = - 1000000000"
    by simp
  from scan_result [OF sorted_squares_of, of E evals b "- 1" "- 1000000000" moves] assms
  show ?thesis
    unfolding select_loop_fold set_squares_of s
    by (elim disjE conjE bexE exE) (force, blast)
qed

lemma select_loop_range:
  assumes "select_loop E evals b moves bm0 bs0 = (bm, bs)"
  shows "bm = bm0 \<or> (\<exists>k. bit moves k \<and> bm = int k)"
  using scan_result [OF sorted_squares_of, of E evals b bm0 bs0 moves] assms
  unfolding select_loop_fold set_squares_of
  by auto

lemma bit_drop: "bit w k = (drop_bit k w AND 1 \<noteq> 0)" for w :: BitPattern
  by (simp add: and_one_eq bit_iff_odd_drop_bit even_iff_mod_2_eq_zero)

lemma ApplyMove_legal:
  assumes "bit (GetMoves E (Player (board st)) (Opponent (board st))) k"
  shows "ApplyMove E st (int k) =
           (True, st\<lparr>board := PlayMove E (GetFlip E (int k) (Player (board st)) (Opponent (board st)))
                                 (board st),
                     stm_is_black := \<not> stm_is_black st\<rparr>)"
  using assms by (simp add: ApplyMove_def Let_def bit_drop)

lemma ApplyMove_result:
  assumes "ApplyMove E st mv = (ok, st')"
  shows "if ok then stm_is_black st' = (\<not> stm_is_black st) else st' = st"
  using assms by (auto simp: ApplyMove_def Let_def split: if_splits)

lemma ApplyMove_effect:
  "(fst (ApplyMove E st mv) \<longrightarrow> stm_is_black (snd (ApplyMove E st mv)) = (\<not> stm_is_black st)) \<and>
   (\<not> fst (ApplyMove E st mv) \<longrightarrow> snd (ApplyMove E st mv) = st)"
  by (simp add: ApplyMove_def Let_def)

lemma ApplyMove_sentinel: "ApplyMove E st (cast_Square (- 1)) = (False, st)"
proof -
  have "drop_bit 255 w = 0" for w :: BitPattern
    by (rule bit_eqI) (auto simp: bit_simps dest: bit_imp_le_length)
  then show ?thesis
    by (simp add: ApplyMove_def cast_Square_def)
qed

lemma cast_Square_square: "k < 64 \<Longrightarrow> cast_Square (int k) = int k"
  by (simp add: cast_Square_def)

lemma candidate_score_neg:
  assumes "sint (Evaluate E evals
      (NewPlayer E (GetFlip E mv (Player b) (Opponent b)) (Opponent b))
      (NewOpponent E (GetFlip E mv (Player b) (Opponent b)) (Player b))) \<noteq> - 2147483648"
  shows "sint (candidate_score E evals b mv) =
         - sint (Evaluate E evals
             (NewPlayer E (GetFlip E mv (Player b) (Opponent b)) (Opponent b))
             (NewOpponent E (GetFlip E mv (Player b) (Opponent b)) (Player b)))"
  using sint_neg [OF assms] by (simp add: candidate_score_def Let_def)

subsection \<open>\<^verbatim>\<open>genmove\<close> with a legal move\<close>

text \<open>
  Take a \<^verbatim>\<open>genmove\<close> request with the evaluator table loaded and the colour of the side
  to move, in a state where at least one legal move has a negated score above
  \<open>-1000000000\<close>, the value \<^verbatim>\<open>best_score\<close> starts from. Then the reply is the
  coordinate of a legal square \<open>k\<close> which \<^verbatim>\<open>ApplyMove\<close> plays; the negated evaluator
  score of the position after \<open>k\<close> is greatest among the legal squares, and \<open>k\<close> is the
  lowest square that reaches it. The loop is a left fold of the comparison "strictly
  greater replaces" over the set bits of the mask in ascending order.
\<close>

lemma genmove_selects_best:
  assumes "request_of line = Some (rid, ''genmove'', iss)"
    and "evals \<noteq> []"
    and "ParseColor (arg1 iss) = Some (stm_is_black st)"
    and "moves = GetMoves E (Player (board st)) (Opponent (board st))"
    and "\<exists>k. bit moves k \<and> - 1000000000 < sint (candidate_score E evals (board st) (int k))"
  shows "\<exists>k st'. bit moves k \<and>
           ApplyMove E st (int k) = (True, st') \<and>
           stm_is_black st' = (\<not> stm_is_black st) \<and>
           process_line E evals st line = Inr (Ok rid (SqToCoord (int k)), st', Continue) \<and>
           (\<forall>x. bit moves x \<longrightarrow>
              sint (candidate_score E evals (board st) (int x))
                \<le> sint (candidate_score E evals (board st) (int k))) \<and>
           (\<forall>x. bit moves x \<longrightarrow>
              sint (candidate_score E evals (board st) (int x))
                = sint (candidate_score E evals (board st) (int k)) \<longrightarrow> k \<le> x) \<and>
           select_loop E evals (board st) moves (- 1) (- 1000000000) =
             foldl (take_better E evals (board st)) (- 1, - 1000000000)
               (filter (bit moves) [0..<64])"
proof -
  from select_loop_best [OF assms(5)] obtain k where k: "bit moves k"
    and sel: "select_loop E evals (board st) moves (- 1) (- 1000000000) =
                (int k, candidate_score E evals (board st) (int k))"
    and best: "\<forall>x. bit moves x \<longrightarrow>
              sint (candidate_score E evals (board st) (int x))
                \<le> sint (candidate_score E evals (board st) (int k))"
    and first: "\<forall>x. bit moves x \<longrightarrow>
              sint (candidate_score E evals (board st) (int x))
                = sint (candidate_score E evals (board st) (int k)) \<longrightarrow> k \<le> x"
    by blast
  have nz: "moves \<noteq> 0"
    using k by auto
  have legal: "bit (GetMoves E (Player (board st)) (Opponent (board st))) k"
    using k assms(4) by simp
  define st' where "st' = st\<lparr>board := PlayMove E
      (GetFlip E (int k) (Player (board st)) (Opponent (board st))) (board st),
      stm_is_black := \<not> stm_is_black st\<rparr>"
  have played: "ApplyMove E st (int k) = (True, st')"
    unfolding st'_def by (rule ApplyMove_legal [OF legal])
  have "genmove_cmd E evals st rid iss = Inr (Ok rid (SqToCoord (int k)), st', Continue)"
    using assms(2,3) nz sel played cast_Square_square [OF bit_imp_le_length [OF k, simplified]]
    by (simp add: genmove_cmd_def Let_def case_prod_beta arg1_def assms(4) [symmetric])
  then have reply: "process_line E evals st line =
      Inr (Ok rid (SqToCoord (int k)), st', Continue)"
    by (simp add: process_line_request [OF assms(1)])
  have turn: "stm_is_black st' = (\<not> stm_is_black st)"
    by (simp add: st'_def)
  have fold: "select_loop E evals (board st) moves (- 1) (- 1000000000) =
             foldl (take_better E evals (board st)) (- 1, - 1000000000)
               (filter (bit moves) [0..<64])"
    by (simp only: select_loop_fold squares_of_def)
  from k played turn reply best first fold show ?thesis
    by blast
qed

text \<open>Two legal squares, \<^verbatim>\<open>c1\<close> with score 3 and \<^verbatim>\<open>d1\<close> with score -1.\<close>

lemma genmove_example:
  "GetMoves toy 1 2 = 12 \<and>
   map (\<lambda>k. sint (candidate_score toy [1] \<lparr>Player = 1, Opponent = 2\<rparr> k)) [2, 3] = [3, - 1] \<and>
   process_line toy [1] \<lparr>board = \<lparr>Player = 1, Opponent = 2\<rparr>, stm_is_black = True\<rparr>
     ''genmove b'' =
   Inr (Ok (- 1) ''c1'', \<lparr>board = \<lparr>Player = 2, Opponent = 5\<rparr>, stm_is_black = False\<rparr>, Continue)"
  by code_simp

text \<open>Three legal squares with the same score: the lowest one is played.\<close>

lemma genmove_tie_example:
  "GetMoves toy 4 0 = 11 \<and>
   map (\<lambda>k. sint (candidate_score toy [1] \<lparr>Player = 4, Opponent = 0\<rparr> k)) [0, 1, 3] = [3, 3, 3] \<and>
   process_line toy [1] \<lparr>board = \<lparr>Player = 4, Opponent = 0\<rparr>, stm_is_black = True\<rparr>
     ''genmove b'' =
   Inr (Ok (- 1) ''a1'', \<lparr>board = \<lparr>Player = 0, Opponent = 5\<rparr>, stm_is_black = False\<rparr>, Continue)"
  by code_simp

text \<open>
  C1 fails on the code. \<^verbatim>\<open>best_score\<close> starts at \<open>-1000000000\<close> and only a strictly
  greater score replaces it. Where the side to move has legal moves (here \<^verbatim>\<open>c1\<close> and
  \<^verbatim>\<open>d1\<close>), the table is loaded and the colour is right, but every legal move scores
  \<open>-1000000000\<close> after negation, the loop ends with \<^verbatim>\<open>best_move\<close> still \<open>-1\<close>. Line
  203 hands \<^verbatim>\<open>(Square)-1\<close> to \<^verbatim>\<open>ApplyMove\<close>, which plays nothing, and drops its
  result; line 204 replies with the success payload \<^verbatim>\<open>hP\<close>, which is no square of the
  board.
\<close>

theorem sentinel_genmove_reply:
  "request_of ''genmove b'' = Some (- 1, ''genmove'', '' b'') \<and>
   ParseColor (arg1 '' b'') = Some True \<and>
   GetMoves toy_far 1 2 = 12 \<and>
   select_loop toy_far [1] \<lparr>Player = 1, Opponent = 2\<rparr> 12 (- 1) (- 1000000000) =
     (- 1, - 1000000000) \<and>
   ApplyMove toy_far \<lparr>board = \<lparr>Player = 1, Opponent = 2\<rparr>, stm_is_black = True\<rparr>
     (cast_Square (- 1)) =
     (False, \<lparr>board = \<lparr>Player = 1, Opponent = 2\<rparr>, stm_is_black = True\<rparr>) \<and>
   process_line toy_far [1] \<lparr>board = \<lparr>Player = 1, Opponent = 2\<rparr>, stm_is_black = True\<rparr>
     ''genmove b'' =
   Inr (Ok (- 1) ''hP'', \<lparr>board = \<lparr>Player = 1, Opponent = 2\<rparr>, stm_is_black = True\<rparr>, Continue)"
  by code_simp

text \<open>
  C10. When the legal-move mask is not zero and every evaluator score is below
  1000000000 in absolute value, the selection loop, which is total, ends with
  \<^verbatim>\<open>best_move\<close> a set bit \<open>k\<close> of the mask and \<^verbatim>\<open>best_score\<close> the score of \<open>k\<close>; it is
  not the sentinel \<open>-1\<close>, and \<^verbatim>\<open>ApplyMove\<close> on \<open>k\<close> returns true.
\<close>

theorem selection_never_fails:
  assumes "moves = GetMoves E (Player (board st)) (Opponent (board st))"
    and "moves \<noteq> 0"
    and "\<forall>p q. \<bar>sint (Evaluate E evals p q)\<bar> < 1000000000"
  shows "\<exists>k st'. select_loop E evals (board st) moves (- 1) (- 1000000000) =
                (int k, candidate_score E evals (board st) (int k)) \<and>
              k < 64 \<and> bit moves k \<and> int k \<noteq> - 1 \<and>
              ApplyMove E st (int k) = (True, st')"
proof -
  from assms(2) obtain j where j: "bit moves j"
    by (auto simp: bit_eq_iff)
  have bound: "- 1000000000 < sint (candidate_score E evals (board st) mv)" for mv
  proof -
    define e where "e = Evaluate E evals
        (NewPlayer E (GetFlip E mv (Player (board st)) (Opponent (board st))) (Opponent (board st)))
        (NewOpponent E (GetFlip E mv (Player (board st)) (Opponent (board st))) (Player (board st)))"
    have abs: "\<bar>sint e\<bar> < 1000000000"
      unfolding e_def using assms(3) by blast
    then have "sint (- e) = - sint e"
      by (intro sint_neg) simp
    then show ?thesis
      using abs by (simp add: candidate_score_def Let_def e_def)
  qed
  then have "\<exists>k. bit moves k \<and> - 1000000000 < sint (candidate_score E evals (board st) (int k))"
    using j by blast
  from select_loop_best [OF this] obtain k where k: "bit moves k"
    and sel: "select_loop E evals (board st) moves (- 1) (- 1000000000) =
                (int k, candidate_score E evals (board st) (int k))"
    by blast
  have "bit (GetMoves E (Player (board st)) (Opponent (board st))) k"
    using k assms(1) by simp
  from ApplyMove_legal [OF this] k sel bit_imp_le_length [OF k] show ?thesis
    by auto
qed

theorem selection_never_fails_witness:
  "(12 :: BitPattern) = GetMoves toy 1 2 \<and> (12 :: BitPattern) \<noteq> 0 \<and>
   (\<forall>p q. \<bar>sint (Evaluate toy [1] p q)\<bar> < 1000000000) \<and>
   (\<exists>k st'. select_loop toy [1] \<lparr>Player = 1, Opponent = 2\<rparr> 12 (- 1) (- 1000000000) =
           (int k, candidate_score toy [1] \<lparr>Player = 1, Opponent = 2\<rparr> (int k)) \<and>
         k < 64 \<and> bit (12 :: BitPattern) k \<and> int k \<noteq> - 1 \<and>
         ApplyMove toy \<lparr>board = \<lparr>Player = 1, Opponent = 2\<rparr>, stm_is_black = True\<rparr> (int k) =
           (True, st'))"
proof -
  let ?st = "\<lparr>board = \<lparr>Player = 1, Opponent = 2\<rparr>, stm_is_black = True\<rparr>"
  have h1: "(12 :: BitPattern) = GetMoves toy (Player (board ?st)) (Opponent (board ?st))"
    by (simp add: toy_def)
  have h2: "(12 :: BitPattern) \<noteq> 0"
    by simp
  have h3: "\<forall>p q. \<bar>sint (Evaluate toy [1] p q)\<bar> < 1000000000"
    by (simp add: toy_def)
  show ?thesis
    using selection_never_fails [OF h1 h2 h3] h1 h3 by simp
qed

subsection \<open>\<^verbatim>\<open>genmove\<close> without a legal move\<close>

text \<open>
  C6. A \<^verbatim>\<open>genmove\<close> request with the evaluator table loaded and the colour of the side
  to move, in a state where the side to move has no legal move, is answered with the
  payload \<^verbatim>\<open>PASS\<close>. The side to move flips, and the two masks trade places and are
  otherwise unchanged, so that black's discs and white's discs are what they were,
  given the board module's contract that a zero flip mask changes no disc.
\<close>

theorem genmove_pass:
  assumes "request_of line = Some (rid, ''genmove'', iss)"
    and "evals \<noteq> []"
    and "ParseColor (arg1 iss) = Some (stm_is_black st)"
    and "GetMoves E (Player (board st)) (Opponent (board st)) = 0"
    and "pass_swaps E (board st)"
  shows "\<exists>st'. process_line E evals st line = Inr (Ok rid ''PASS'', st', Continue) \<and>
           st' = \<lparr>board = \<lparr>Player = Opponent (board st), Opponent = Player (board st)\<rparr>,
                  stm_is_black = \<not> stm_is_black st\<rparr> \<and>
           black_mask st' = black_mask st \<and> white_mask st' = white_mask st"
  using assms(2-5)
  by (simp add: process_line_request [OF assms(1)] genmove_cmd_def arg1_def case_prod_beta
      ApplyPass_def PlayMove_def pass_swaps_def black_mask_def white_mask_def)

theorem genmove_pass_witness:
  "request_of ''3 genmove w'' = Some (3, ''genmove'', '' w'') \<and>
   [1 :: nat] \<noteq> [] \<and>
   ParseColor (arg1 '' w'') = Some False \<and>
   GetMoves toy 3 12 = 0 \<and>
   pass_swaps toy \<lparr>Player = 3, Opponent = 12\<rparr> \<and>
   process_line toy [1] \<lparr>board = \<lparr>Player = 3, Opponent = 12\<rparr>, stm_is_black = False\<rparr>
     ''3 genmove w'' =
   Inr (Ok 3 ''PASS'', \<lparr>board = \<lparr>Player = 12, Opponent = 3\<rparr>, stm_is_black = True\<rparr>, Continue)"
proof -
  let ?st = "\<lparr>board = \<lparr>Player = 3, Opponent = 12\<rparr>, stm_is_black = False\<rparr>"
  have h1: "request_of ''3 genmove w'' = Some (3, ''genmove'', '' w'')"
    by code_simp
  have h2: "[1 :: nat] \<noteq> []"
    by simp
  have h3: "ParseColor (arg1 '' w'') = Some (stm_is_black ?st)"
    by code_simp
  have h4: "GetMoves toy (Player (board ?st)) (Opponent (board ?st)) = 0"
    by (simp add: toy_def)
  have h5: "pass_swaps toy (board ?st)"
    by (simp add: pass_swaps_def toy_def)
  show ?thesis
    using genmove_pass [OF h1 h2 h3 h4 h5] h1 h3 h4 h5 by simp
qed

subsection \<open>Rejected and accepted requests\<close>

lemma play_cmd_effect:
  assumes "play_cmd E st rid iss = Inr (out, st', fl)"
  shows "(is_error_reply out \<and> st' = st) \<or>
         (is_success_reply out \<and> stm_is_black st' = (\<not> stm_is_black st))"
  using assms
  by (auto simp: play_cmd_def case_prod_beta Err_is_error Ok_is_success ApplyPass_def
      ApplyMove_effect split: option.splits if_splits)

text \<open>A \<^verbatim>\<open>genmove\<close> that is answered with success has flipped the side to move, unless
  the loop ended on the sentinel: then the state is what it was.\<close>

lemma genmove_cmd_effect:
  assumes "genmove_cmd E evals st rid iss = Inr (out, st', fl)"
  shows "(is_error_reply out \<and> st' = st) \<or>
         (is_success_reply out \<and> stm_is_black st' = (\<not> stm_is_black st)) \<or>
         (is_success_reply out \<and> st' = st \<and>
          fst (select_loop E evals (board st)
                (GetMoves E (Player (board st)) (Opponent (board st))) (- 1) (- 1000000000)) = - 1)"
proof -
  let ?moves = "GetMoves E (Player (board st)) (Opponent (board st))"
  obtain bm bs where sel: "select_loop E evals (board st) ?moves (- 1) (- 1000000000) = (bm, bs)"
    by (cases "select_loop E evals (board st) ?moves (- 1) (- 1000000000)")
  obtain ok st1 where am: "ApplyMove E st (cast_Square bm) = (ok, st1)"
    by (cases "ApplyMove E st (cast_Square bm)")
  have after: "stm_is_black st1 = (\<not> stm_is_black st) \<or> (st1 = st \<and> bm = - 1)"
  proof (cases "bm = - 1")
    case True
    with am ApplyMove_sentinel [of E st] show ?thesis
      by simp
  next
    case False
    with select_loop_range [OF sel] obtain k where k: "bit ?moves k" "bm = int k"
      by auto
    have "cast_Square bm = int k"
      using k bit_imp_le_length [OF k(1)] by (simp add: cast_Square_square)
    with ApplyMove_legal [OF k(1)] am show ?thesis
      by auto
  qed
  show ?thesis
    using assms after
    by (auto simp: genmove_cmd_def Let_def case_prod_beta sel am Err_is_error Ok_is_success
        ApplyPass_def split: option.splits if_splits)
qed

text \<open>
  Whenever a line is answered with an error reply, the state after the line is the
  state before it; the same holds when the line gets no reply. A \<^verbatim>\<open>play\<close> or
  \<^verbatim>\<open>genmove\<close> request, a pass included, gets an error reply or a success reply. On a
  success reply to \<^verbatim>\<open>play\<close> the side to move has flipped; on a success reply to
  \<^verbatim>\<open>genmove\<close> it has flipped unless the loop ended on the sentinel.
\<close>

lemma reply_and_turn:
  assumes "process_line E evals st line = Inr (out, st', fl)"
  shows "(is_error_reply out \<longrightarrow> st' = st) \<and>
         (\<not> is_success_reply out \<longrightarrow> st' = st) \<and>
         ((\<exists>rid iss. request_of line = Some (rid, ''play'', iss)) \<longrightarrow>
            (is_success_reply out \<longrightarrow> stm_is_black st' = (\<not> stm_is_black st)) \<and>
            (is_error_reply out \<or> is_success_reply out)) \<and>
         ((\<exists>rid iss. request_of line = Some (rid, ''genmove'', iss)) \<longrightarrow>
            (is_success_reply out \<longrightarrow>
               stm_is_black st' = (\<not> stm_is_black st) \<or>
               (st' = st \<and>
                fst (select_loop E evals (board st)
                      (GetMoves E (Player (board st)) (Opponent (board st)))
                      (- 1) (- 1000000000)) = - 1)) \<and>
            (is_error_reply out \<or> is_success_reply out))"
proof (cases "request_of line")
  case None
  from process_line_no_request [OF None, of E evals st] assms
  have "out = [] \<and> st' = st" by auto
  then show ?thesis
    using None by (simp add: empty_not_reply)
next
  case (Some r)
  obtain rid cmd iss where r: "r = (rid, cmd, iss)"
    by (cases r)
  note req = Some [unfolded r]
  note pl = process_line_request [OF req, of E evals st]
  have excl: "is_error_reply out \<longrightarrow> \<not> is_success_reply out"
    by (auto simp: is_error_reply_def is_success_reply_def)
  consider (play) "cmd = ''play''" | (genmove) "cmd = ''genmove''"
    | (other) "cmd \<noteq> ''play''" "cmd \<noteq> ''genmove''"
    by blast
  then show ?thesis
  proof cases
    case play
    with pl assms have "play_cmd E st rid iss = Inr (out, st', fl)"
      by simp
    from play_cmd_effect [OF this] excl show ?thesis
      using play req by auto
  next
    case genmove
    with pl assms have "genmove_cmd E evals st rid iss = Inr (out, st', fl)"
      by simp
    from genmove_cmd_effect [OF this] excl show ?thesis
      using genmove req by auto
  next
    case other
    with pl assms have "(is_success_reply out \<and> \<not> is_error_reply out) \<or> st' = st"
      by (auto simp: final_score_cmd_def Let_def case_prod_beta Ok_is_success Ok_not_error
          split: if_splits)
    with excl show ?thesis
      using other req by auto
  qed
qed

text \<open>A rejected and an accepted \<^verbatim>\<open>play\<close>.\<close>

lemma reply_and_turn_example:
  "process_line toy [1] \<lparr>board = \<lparr>Player = 1, Opponent = 2\<rparr>, stm_is_black = True\<rparr> ''play b a1'' =
     Inr (Err (- 1) ''illegal move'',
          \<lparr>board = \<lparr>Player = 1, Opponent = 2\<rparr>, stm_is_black = True\<rparr>, Continue) \<and>
   process_line toy [1] \<lparr>board = \<lparr>Player = 1, Opponent = 2\<rparr>, stm_is_black = True\<rparr> ''play b c1'' =
     Inr (Ok (- 1) [], \<lparr>board = \<lparr>Player = 2, Opponent = 5\<rparr>, stm_is_black = False\<rparr>, Continue)"
  by code_simp

text \<open>
  C3 fails on the code, where the selection loop ends on its sentinel: every legal
  move scores \<open>-1000000000\<close> after negation. The \<^verbatim>\<open>genmove\<close> request below is accepted:
  its reply is a success reply. Yet \<^verbatim>\<open>ApplyMove\<close> on \<^verbatim>\<open>(Square)-1\<close> returned false,
  which line 203 ignores, and black is still to move after the line.
\<close>

theorem sentinel_genmove_keeps_turn:
  "is_success_reply (Ok (- 1) ''hP'') \<and>
   stm_is_black \<lparr>board = \<lparr>Player = 1, Opponent = 2\<rparr>, stm_is_black = True\<rparr> \<and>
   (\<exists>st'. process_line toy_far [1]
            \<lparr>board = \<lparr>Player = 1, Opponent = 2\<rparr>, stm_is_black = True\<rparr> ''genmove b'' =
          Inr (Ok (- 1) ''hP'', st', Continue) \<and>
          stm_is_black st' \<and>
          st' = \<lparr>board = \<lparr>Player = 1, Opponent = 2\<rparr>, stm_is_black = True\<rparr>)"
proof -
  have "process_line toy_far [1]
          \<lparr>board = \<lparr>Player = 1, Opponent = 2\<rparr>, stm_is_black = True\<rparr> ''genmove b'' =
        Inr (Ok (- 1) ''hP'', \<lparr>board = \<lparr>Player = 1, Opponent = 2\<rparr>, stm_is_black = True\<rparr>,
             Continue)"
    by code_simp
  then show ?thesis
    by (simp add: Ok_is_success)
qed

subsection \<open>\<^verbatim>\<open>genmove\<close> without an evaluator table\<close>

lemma main_loop_nth:
  assumes "main_loop E evals st lines = (outs, e)" and "i < length outs"
  shows "i < length lines \<and>
         (\<exists>st_i st' fl. process_line E evals st_i (lines ! i) = Inr (outs ! i, st', fl))"
  using assms
proof (induction lines arbitrary: st outs i e)
  case Nil
  then show ?case by simp
next
  case (Cons line rest)
  show ?case
  proof (cases "process_line E evals st line")
    case (Inl f)
    with Cons.prems show ?thesis by simp
  next
    case (Inr r)
    obtain out st1 fl where r: "r = (out, st1, fl)"
      by (cases r)
    show ?thesis
    proof (cases fl)
      case Break
      with Cons.prems Inr r show ?thesis
        by fastforce
    next
      case Continue
      obtain outs' e' where rest: "main_loop E evals st1 rest = (outs', e')"
        by (cases "main_loop E evals st1 rest")
      with Cons.prems Inr r Continue have outs: "outs = out # outs'"
        by simp
      show ?thesis
      proof (cases i)
        case 0
        with outs Inr r show ?thesis by auto
      next
        case (Suc j)
        with Cons.prems(2) outs have "j < length outs'" by simp
        from Cons.IH [OF rest this] Suc outs show ?thesis by simp
      qed
    qed
  qed
qed

lemma genmove_unloaded:
  assumes "request_of line = Some (rid, ''genmove'', iss)"
  shows "process_line E [] st line =
           Inr (if ParseColor (arg1 iss) = None then Err rid ''illegal color''
                else Err rid ''evals not loaded'', st, Continue)"
  by (auto simp: process_line_request [OF assms] genmove_cmd_def arg1_def case_prod_beta
      split: option.splits)

text \<open>
  C8, as the code has it. When both loads of the evaluator table at startup return an
  empty table, every \<^verbatim>\<open>genmove\<close> request of the session is answered with an error,
  whatever the board and the side to move are by then: with \<^verbatim>\<open>illegal color\<close> when
  its colour token is missing or does not parse, and with \<^verbatim>\<open>evals not loaded\<close>
  otherwise. \<open>outs ! i\<close> is the reply to the \<open>i\<close>-th line of input.
\<close>

theorem genmove_without_evals:
  assumes "LoadEvals E (eval_path_of ''sensei-engine/pattern_evaluator.dat'' args) = []"
    and "LoadEvals E ''pattern_evaluator.dat'' = []"
    and "main E args lines = (outs, e)"
    and "i < length outs"
    and "request_of (lines ! i) = Some (rid, ''genmove'', iss)"
  shows "outs ! i = (if ParseColor (arg1 iss) = None then Err rid ''illegal color''
                     else Err rid ''evals not loaded'')"
proof -
  have "load_evals E args = []"
    using assms(1,2) by (simp add: load_evals_def)
  with assms(3) have "main_loop E []
      (Reset E \<lparr>board = InitialBoard E, stm_is_black = True\<rparr>) lines = (outs, e)"
    by (simp add: main_def)
  from main_loop_nth [OF this assms(4)] obtain st_i st' fl
    where "process_line E [] st_i (lines ! i) = Inr (outs ! i, st', fl)"
    by blast
  with genmove_unloaded [OF assms(5), of E st_i] show ?thesis
    by simp
qed

theorem genmove_without_evals_witness:
  "LoadEvals toy (eval_path_of ''sensei-engine/pattern_evaluator.dat'' []) = [] \<and>
   LoadEvals toy ''pattern_evaluator.dat'' = [] \<and>
   main toy [] [''play b c1'', ''4 genmove White'', ''genmove purple''] =
     ([Ok (- 1) [], Err 4 ''evals not loaded'', Err (- 1) ''illegal color''], EndOfInput) \<and>
   request_of ([''play b c1'', ''4 genmove White'', ''genmove purple''] ! 1) =
     Some (4, ''genmove'', '' White'') \<and>
   ParseColor (arg1 '' White'') = Some False \<and>
   [Ok (- 1) [], Err 4 ''evals not loaded'', Err (- 1) ''illegal color''] ! 1 =
     Err 4 ''evals not loaded'' \<and>
   request_of ([''play b c1'', ''4 genmove White'', ''genmove purple''] ! 2) =
     Some (- 1, ''genmove'', '' purple'') \<and>
   ParseColor (arg1 '' purple'') = None \<and>
   [Ok (- 1) [], Err 4 ''evals not loaded'', Err (- 1) ''illegal color''] ! 2 =
     Err (- 1) ''illegal color''"
proof -
  let ?lines = "[''play b c1'', ''4 genmove White'', ''genmove purple'']"
  let ?outs = "[Ok (- 1) [], Err 4 ''evals not loaded'', Err (- 1) ''illegal color'']"
  have h1: "LoadEvals toy (eval_path_of ''sensei-engine/pattern_evaluator.dat'' []) = []"
    by (simp add: toy_def)
  have h2: "LoadEvals toy ''pattern_evaluator.dat'' = []"
    by (simp add: toy_def)
  have h3: "main toy [] ?lines = (?outs, EndOfInput)"
    by code_simp
  have h4: "1 < length ?outs" "2 < length ?outs"
    by simp_all
  have h5: "request_of (?lines ! 1) = Some (4, ''genmove'', '' White'')"
    by code_simp
  have h6: "request_of (?lines ! 2) = Some (- 1, ''genmove'', '' purple'')"
    by code_simp
  have c1: "ParseColor (arg1 '' White'') = Some False"
    by code_simp
  have c2: "ParseColor (arg1 '' purple'') = None"
    by code_simp
  show ?thesis
    using genmove_without_evals [OF h1 h2 h3 h4(1) h5]
      genmove_without_evals [OF h1 h2 h3 h4(2) h6] h1 h2 h3 h5 h6 c1 c2
    by simp
qed

text \<open>The colour token is tested first: without a table, a \<^verbatim>\<open>genmove\<close> whose colour
  token is missing or does not parse is answered with \<^verbatim>\<open>illegal color\<close>.\<close>

theorem genmove_bad_color_without_evals:
  "load_evals toy [] = [] \<and>
   request_of ''genmove purple'' = Some (- 1, ''genmove'', '' purple'') \<and>
   main toy [] [''genmove purple'', ''genmove''] =
     ([Err (- 1) ''illegal color'', Err (- 1) ''illegal color''], EndOfInput)"
  by code_simp

end
